theory Spec2Isabelle
  imports Complex_Main "HOL-Library.Word" "HOL-Library.AList"
begin

section \<open>JavaScript values used by the transcriber\<close>

text \<open>
  The model follows \<^verbatim>\<open>src/transcriber.js\<close> (class \<^verbatim>\<open>Transcriber\<close>) and
  \<^verbatim>\<open>src/config.js\<close>. Mutation of \<^verbatim>\<open>this\<close> and of a \<^verbatim>\<open>peerData\<close> object is explicit
  state passing; an exception is the \<open>Inl\<close> branch of a sum; \<^verbatim>\<open>Date.now()\<close> and
  \<^verbatim>\<open>new Date()\<close> are a parameter \<open>now\<close> (milliseconds).

  Numbers. The two quotients the code computes (\<^verbatim>\<open>samples.length / sampleRate\<close> and
  \<^verbatim>\<open>sum / samples.length\<close>) have non-negative integer operands, so the only special
  values that can arise are \<^verbatim>\<open>NaN\<close> (0/0) and \<^verbatim>\<open>Infinity\<close> (x/0 with x > 0). Finite
  values are exact rationals: the rounding of IEEE doubles is not modelled.

  The file system never fails: \<^verbatim>\<open>fs.writeFileSync\<close> and \<^verbatim>\<open>fs.unlink\<close> always succeed.
\<close>

type_synonym byte = "8 word"
type_synonym bytes = "byte list"

datatype jsnum = NaN | PosInf | Fin rat

definition js_div :: "nat \<Rightarrow> nat \<Rightarrow> jsnum" where
  "js_div a b = (if b = 0 then (if a = 0 then NaN else PosInf) else Fin (of_nat a / of_nat b))"

fun js_add :: "jsnum \<Rightarrow> jsnum \<Rightarrow> jsnum" where
  "js_add NaN _ = NaN"
| "js_add _ NaN = NaN"
| "js_add PosInf _ = PosInf"
| "js_add _ PosInf = PosInf"
| "js_add (Fin a) (Fin b) = Fin (a + b)"

fun js_gt :: "jsnum \<Rightarrow> rat \<Rightarrow> bool" where
  "js_gt NaN _ = False"
| "js_gt PosInf _ = True"
| "js_gt (Fin a) b = (a > b)"

fun js_ge :: "jsnum \<Rightarrow> rat \<Rightarrow> bool" where
  "js_ge NaN _ = False"
| "js_ge PosInf _ = True"
| "js_ge (Fin a) b = (a \<ge> b)"

datatype js_error = RangeError | FileError | TranscriptionError

subsection \<open>Strings\<close>

text \<open>
  A JavaScript string is modelled as a \<^typ>\<open>string\<close> whose characters are the code units
  0..255 (Latin-1). On that range \<^verbatim>\<open>String.prototype.trim\<close> strips TAB, LF, VT, FF, CR,
  SPACE and NBSP, and \<^verbatim>\<open>toLowerCase\<close> maps A..Z and the accented capitals
  0xC0..0xDE (without 0xD7) to the code unit 32 above.
\<close>

definition js_whitespace :: "char \<Rightarrow> bool" where
  "js_whitespace c = ((of_char c :: nat) \<in> {9, 10, 11, 12, 13, 32, 160})"

definition js_trim :: "string \<Rightarrow> string" where
  "js_trim s = rev (dropWhile js_whitespace (rev (dropWhile js_whitespace s)))"

definition lower_char :: "char \<Rightarrow> char" where
  "lower_char c =
     (let n = (of_char c :: nat)
      in if (65 \<le> n \<and> n \<le> 90) \<or> (192 \<le> n \<and> n \<le> 222 \<and> n \<noteq> 215)
         then char_of (n + 32) else c)"

definition js_toLowerCase :: "string \<Rightarrow> string" where
  "js_toLowerCase s = map lower_char s"

subsection \<open>Buffers\<close>

definition byte_of_char :: "char \<Rightarrow> byte" where
  "byte_of_char c = of_nat (of_char c)"

definition Buffer_alloc :: "nat \<Rightarrow> bytes" where
  "Buffer_alloc n = replicate n 0"

text \<open>Overwriting part of a buffer in place; what does not fit is cut off.\<close>

definition splice :: "bytes \<Rightarrow> nat \<Rightarrow> bytes \<Rightarrow> bytes" where
  "splice buf off bs = take off buf @ take (length buf - off) bs @ drop (off + length bs) buf"

definition buf_write :: "string \<Rightarrow> nat \<Rightarrow> bytes \<Rightarrow> js_error + bytes" where
  "buf_write s off buf = Inr (splice buf off (map byte_of_char s))"

text \<open>
  Node's \<^verbatim>\<open>writeUInt32LE\<close> and \<^verbatim>\<open>writeUInt16LE\<close> throw \<^verbatim>\<open>ERR_OUT_OF_RANGE\<close> (a RangeError)
  when the value does not fit; otherwise they store the bytes, least significant first.
\<close>

definition writeUInt32LE :: "nat \<Rightarrow> nat \<Rightarrow> bytes \<Rightarrow> js_error + bytes" where
  "writeUInt32LE v off buf =
     (if v > 4294967295 then Inl RangeError
      else Inr (splice buf off
             [of_nat v, of_nat (v div 256), of_nat (v div 65536), of_nat (v div 16777216)]))"

definition writeUInt16LE :: "nat \<Rightarrow> nat \<Rightarrow> bytes \<Rightarrow> js_error + bytes" where
  "writeUInt16LE v off buf =
     (if v > 65535 then Inl RangeError
      else Inr (splice buf off [of_nat v, of_nat (v div 256)]))"

definition readUInt32LE :: "bytes \<Rightarrow> nat \<Rightarrow> nat" where
  "readUInt32LE buf off =
     unat (buf ! off) + 256 * unat (buf ! (off + 1))
       + 65536 * unat (buf ! (off + 2)) + 16777216 * unat (buf ! (off + 3))"

definition readUInt16LE :: "bytes \<Rightarrow> nat \<Rightarrow> nat" where
  "readUInt16LE buf off = unat (buf ! off) + 256 * unat (buf ! (off + 1))"

text \<open>A sequence of write statements; the first one that throws ends it.\<close>

fun run_writes :: "(bytes \<Rightarrow> js_error + bytes) list \<Rightarrow> bytes \<Rightarrow> js_error + bytes" where
  "run_writes [] buf = Inr buf"
| "run_writes (w # ws) buf =
     (case w buf of Inl e \<Rightarrow> Inl e | Inr buf' \<Rightarrow> run_writes ws buf')"

section \<open>Data model\<close>

datatype path = SessionFile string nat | WavFile string nat

record entry =
  e_timestamp :: nat
  e_userId :: string
  e_text :: string

record session =
  s_filePath :: path
  s_startedAt :: nat
  s_transcriptions :: "entry list"

record sessionData =
  d_room :: string
  d_startedAt :: nat
  d_endedAt :: "nat option"
  d_transcriptions :: "entry list"

datatype content = Bytes bytes | Yaml sessionData

type_synonym filesystem = "path \<rightharpoonup> content"

record job =
  j_socketId :: string
  j_userId :: string
  j_roomId :: string
  j_audioBuffer :: bytes
  j_sampleRate :: nat
  j_channelCount :: nat

record peerData =
  p_audioSink :: bool
  p_buffer :: "bytes list"
  p_bufferDuration :: jsnum
  p_userId :: string
  p_roomId :: string
  p_sampleRate :: nat
  p_channelCount :: nat

text \<open>One \<^verbatim>\<open>data\<close> event of an \<^verbatim>\<open>RTCAudioSink\<close>.\<close>

record frame =
  f_samples_buffer :: bytes
  f_samples_length :: nat
  f_sampleRate :: nat
  f_channelCount :: nat

record message =
  m_userId :: string
  m_text :: string
  m_timestamp :: nat

text \<open>
  The calls whose order and arguments the properties speak about are recorded in a log:
  each invocation of \<^verbatim>\<open>hasVoiceActivity\<close> with its call site and its argument, the
  request to the Groq API with the uploaded bytes, and the spawn of the whisper process.
\<close>

datatype call_site = In_queueTranscription | In_transcribeWithGroq

datatype call =
    HasVoiceActivity call_site bytes
  | GroqCreate bytes
  | SpawnWhisper path

text \<open>
  A suspended invocation of \<^verbatim>\<open>processQueue\<close>, waiting at its \<^verbatim>\<open>await\<close>: the job, the
  path of its container file, and \<open>a_early\<close>, which is \<open>Some r\<close> when the awaited promise
  was settled with \<open>r\<close> before any provider was invoked.
\<close>

record pending =
  a_item :: job
  a_wavPath :: path
  a_early :: "(js_error + string) option"

record transcriber =
  peers :: "(string \<times> peerData) list"
  sessions :: "string \<rightharpoonup> session"
  isProcessing :: bool
  queue :: "job list"
  provider :: string
  bufferDuration :: rat
  files :: filesystem
  emitted :: "(string \<times> message) list"
  calls :: "call list"
  awaiting :: "pending list"

section \<open>The constructor\<close>

definition config_bufferDuration :: rat where
  "config_bufferDuration = 5"

text \<open>
  \<open>cfgProvider\<close> is \<^verbatim>\<open>config.transcription.provider\<close>, \<open>apiKey\<close> is
  \<^verbatim>\<open>config.transcription.groq.apiKey\<close> (the empty string when the variable is unset).
\<close>

definition new_Transcriber :: "string \<Rightarrow> string \<Rightarrow> transcriber" where
  "new_Transcriber cfgProvider apiKey =
     \<lparr> peers = [], sessions = Map.empty, isProcessing = False, queue = [],
       provider = (if cfgProvider = ''groq'' \<and> apiKey = [] then ''local-whisper''
                   else cfgProvider),
       bufferDuration = config_bufferDuration,
       files = Map.empty, emitted = [], calls = [], awaiting = [] \<rparr>"

section \<open>Sessions\<close>

definition startSession :: "transcriber \<Rightarrow> string \<Rightarrow> nat \<Rightarrow> session \<times> transcriber" where
  "startSession t roomId now =
     (case sessions t roomId of
        Some existing \<Rightarrow> (existing, t)
      | None \<Rightarrow>
          (let filePath = SessionFile roomId now;
               new_session = \<lparr> s_filePath = filePath, s_startedAt = now, s_transcriptions = [] \<rparr>;
               doc = \<lparr> d_room = roomId, d_startedAt = now, d_endedAt = None,
                       d_transcriptions = [] \<rparr>
           in (new_session,
               t\<lparr> files := (files t)(filePath \<mapsto> Yaml doc),
                  sessions := (sessions t)(roomId \<mapsto> new_session) \<rparr>)))"

definition endSession :: "transcriber \<Rightarrow> string \<Rightarrow> nat \<Rightarrow> transcriber" where
  "endSession t roomId now =
     (case sessions t roomId of
        None \<Rightarrow> t
      | Some s \<Rightarrow>
          (let doc = \<lparr> d_room = roomId, d_startedAt = s_startedAt s, d_endedAt = Some now,
                       d_transcriptions = s_transcriptions s \<rparr>
           in t\<lparr> files := (files t)(s_filePath s \<mapsto> Yaml doc),
                 sessions := (sessions t)(roomId := None) \<rparr>))"

definition saveTranscription ::
  "transcriber \<Rightarrow> string \<Rightarrow> string \<Rightarrow> string \<Rightarrow> nat \<Rightarrow> transcriber" where
  "saveTranscription t roomId userId text timestamp =
     (case sessions t roomId of
        None \<Rightarrow> t
      | Some s \<Rightarrow>
          (let e = \<lparr> e_timestamp = timestamp, e_userId = userId, e_text = text \<rparr>;
               s' = s\<lparr> s_transcriptions := s_transcriptions s @ [e] \<rparr>;
               doc = \<lparr> d_room = roomId, d_startedAt = s_startedAt s', d_endedAt = None,
                       d_transcriptions = s_transcriptions s' \<rparr>
           in t\<lparr> sessions := (sessions t)(roomId \<mapsto> s'),
                 files := (files t)(s_filePath s' \<mapsto> Yaml doc) \<rparr>))"

section \<open>The container encoder\<close>

definition writeWav ::
  "filesystem \<Rightarrow> path \<Rightarrow> bytes \<Rightarrow> nat \<Rightarrow> nat \<Rightarrow> js_error + filesystem" where
  "writeWav fs filePath pcmBuffer sampleRate channelCount =
     (let bitsPerSample = 16;
          byteRate = sampleRate * channelCount * (bitsPerSample div 8);
          blockAlign = channelCount * (bitsPerSample div 8);
          dataSize = length pcmBuffer;
          fileSize = 36 + dataSize
      in case run_writes
            [buf_write ''RIFF'' 0,
             writeUInt32LE fileSize 4,
             buf_write ''WAVE'' 8,
             buf_write ''fmt '' 12,
             writeUInt32LE 16 16,
             writeUInt16LE 1 20,
             writeUInt16LE channelCount 22,
             writeUInt32LE sampleRate 24,
             writeUInt32LE byteRate 28,
             writeUInt16LE blockAlign 32,
             writeUInt16LE bitsPerSample 34,
             buf_write ''data'' 36,
             writeUInt32LE dataSize 40]
            (Buffer_alloc 44)
         of Inl e \<Rightarrow> Inl e
          | Inr header \<Rightarrow> Inr (fs(filePath \<mapsto> Bytes (header @ pcmBuffer))))"

definition readFileSync :: "filesystem \<Rightarrow> path \<Rightarrow> js_error + bytes" where
  "readFileSync fs p = (case fs p of Some (Bytes b) \<Rightarrow> Inr b | _ \<Rightarrow> Inl FileError)"

section \<open>The voice-activity gate\<close>

text \<open>
  \<^verbatim>\<open>new Int16Array(buffer, byteOffset, length / 2)\<close>: the length is truncated to an
  integer, and each sample is two bytes, low byte first, read as two's complement.
\<close>

definition int16_of :: "byte \<Rightarrow> byte \<Rightarrow> int" where
  "int16_of lo hi =
     (let u = unat lo + 256 * unat hi
      in if u \<ge> 32768 then int u - 65536 else int u)"

fun Int16Array :: "bytes \<Rightarrow> int list" where
  "Int16Array (lo # hi # rest) = int16_of lo hi # Int16Array rest"
| "Int16Array _ = []"

definition avgEnergy :: "bytes \<Rightarrow> jsnum" where
  "avgEnergy pcmBuffer =
     (let samples = Int16Array pcmBuffer;
          sum = foldl (\<lambda>s x. s + nat \<bar>x\<bar>) 0 samples
      in js_div sum (length samples))"

definition hasVoiceActivity :: "bytes \<Rightarrow> bool" where
  "hasVoiceActivity pcmBuffer = js_gt (avgEnergy pcmBuffer) 50"

section \<open>Providers\<close>

definition hallucinations :: "string list" where
  "hallucinations =
     [''thank you'', ''thanks for watching'', ''thanks for listening'',
      ''subscribe'', ''like and subscribe'', ''see you next time'',
      ''bye'', ''goodbye'', ''the end'']"

text \<open>
  \<^verbatim>\<open>transcribeWithGroq\<close> runs in two parts. Up to its \<^verbatim>\<open>await\<close> it reads the container
  file back, evaluates the gate on the bytes it read and, if they pass, sends the request.
  The result is the suspended call and the extended log.
\<close>

definition transcribeWithGroq_begin ::
  "transcriber \<Rightarrow> path \<Rightarrow> (js_error + string) option \<times> transcriber" where
  "transcribeWithGroq_begin t audioPath =
     (case readFileSync (files t) audioPath of
        Inl e \<Rightarrow> (Some (Inl e), t)
      | Inr audioBuffer \<Rightarrow>
          (let t1 = t\<lparr> calls := calls t @ [HasVoiceActivity In_transcribeWithGroq audioBuffer] \<rparr>
           in if \<not> hasVoiceActivity audioBuffer then (Some (Inr []), t1)
              else (None, t1\<lparr> calls := calls t1 @ [GroqCreate audioBuffer] \<rparr>)))"

text \<open>The part after the \<^verbatim>\<open>await\<close>, given the text the API returned.\<close>

definition transcribeWithGroq_end :: "string \<Rightarrow> string" where
  "transcribeWithGroq_end transcription =
     (let text = js_toLowerCase (js_trim transcription)
      in if list_ex (\<lambda>h. text = h \<or> text = h @ ''.'') hallucinations then []
         else transcription)"

text \<open>
  \<^verbatim>\<open>transcribeWithLocalWhisper\<close>: the spawn, and the handlers of the process's \<^verbatim>\<open>close\<close>
  and \<^verbatim>\<open>error\<close> events. \<open>txt\<close> is the content of the text file the process left beside the
  audio file, \<open>None\<close> when there is none.
\<close>

definition transcribeWithLocalWhisper_begin ::
  "transcriber \<Rightarrow> path \<Rightarrow> (js_error + string) option \<times> transcriber" where
  "transcribeWithLocalWhisper_begin t audioPath =
     (None, t\<lparr> calls := calls t @ [SpawnWhisper audioPath] \<rparr>)"

definition transcribeWithLocalWhisper_close :: "int \<Rightarrow> string option \<Rightarrow> js_error + string" where
  "transcribeWithLocalWhisper_close code txt =
     (if code \<noteq> 0 then Inl TranscriptionError
      else (case txt of Some transcript \<Rightarrow> Inr transcript | None \<Rightarrow> Inr []))"

text \<open>What the outside world answers to the call a worker is waiting for.\<close>

datatype outcome =
    GroqText string
  | GroqFailure
  | WhisperClose int "string option"
  | WhisperError

text \<open>
  The value the \<^verbatim>\<open>await\<close> in \<^verbatim>\<open>processQueue\<close> yields (\<open>Inl\<close>: it throws); \<open>None\<close> when
  the outcome is not one the selected provider can produce.
\<close>

definition await_result ::
  "string \<Rightarrow> pending \<Rightarrow> outcome \<Rightarrow> (js_error + string) option" where
  "await_result prov a out =
     (case a_early a of
        Some r \<Rightarrow> Some r
      | None \<Rightarrow>
          (if prov = ''groq'' then
             (case out of
                GroqText s \<Rightarrow> Some (Inr (transcribeWithGroq_end s))
              | GroqFailure \<Rightarrow> Some (Inl TranscriptionError)
              | _ \<Rightarrow> None)
           else
             (case out of
                WhisperClose code txt \<Rightarrow> Some (transcribeWithLocalWhisper_close code txt)
              | WhisperError \<Rightarrow> Some (Inl TranscriptionError)
              | _ \<Rightarrow> None)))"

section \<open>The queue and its worker\<close>

text \<open>
  \<^verbatim>\<open>processQueue\<close> up to its \<^verbatim>\<open>await\<close>. A RangeError of \<^verbatim>\<open>writeWav\<close> is raised before
  the \<^verbatim>\<open>try\<close> block: the flag stays set and nothing is awaited.
\<close>

definition processQueue :: "transcriber \<Rightarrow> nat \<Rightarrow> transcriber" where
  "processQueue t now =
     (if isProcessing t \<or> queue t = [] then t
      else
        (let item = hd (queue t);
             t1 = t\<lparr> isProcessing := True, queue := tl (queue t) \<rparr>;
             wavPath = WavFile (j_socketId item) now
         in case writeWav (files t1) wavPath (j_audioBuffer item) (j_sampleRate item)
                   (j_channelCount item) of
              Inl e \<Rightarrow> t1
            | Inr fs \<Rightarrow>
                (let t2 = t1\<lparr> files := fs \<rparr>;
                     (early, t3) =
                        (if provider t2 = ''groq'' then transcribeWithGroq_begin t2 wavPath
                         else transcribeWithLocalWhisper_begin t2 wavPath)
                 in t3\<lparr> awaiting := awaiting t3 @
                          [\<lparr> a_item = item, a_wavPath = wavPath, a_early = early \<rparr>] \<rparr>)))"

text \<open>
  The rest of \<^verbatim>\<open>processQueue\<close>, run when the awaited call settles: the \<^verbatim>\<open>try\<close> body after
  the \<^verbatim>\<open>await\<close>, the \<^verbatim>\<open>catch\<close> (which only logs) and the \<^verbatim>\<open>finally\<close>. The removal of
  the container file takes effect at once.
\<close>

definition settle :: "transcriber \<Rightarrow> outcome \<Rightarrow> nat \<Rightarrow> transcriber" where
  "settle t out now =
     (case awaiting t of
        [] \<Rightarrow> t
      | a # rest \<Rightarrow>
          (case await_result (provider t) a out of
             None \<Rightarrow> t
           | Some r \<Rightarrow>
               (let item = a_item a;
                    t1 = t\<lparr> awaiting := rest \<rparr>;
                    t2 = (case r of
                            Inl err \<Rightarrow> t1
                          | Inr transcript \<Rightarrow>
                              if transcript \<noteq> [] \<and> js_trim transcript \<noteq> [] then
                                (let text = js_trim transcript;
                                     timestamp = now;
                                     t' = saveTranscription t1 (j_roomId item) (j_userId item)
                                            text timestamp
                                 in t'\<lparr> emitted := emitted t' @
                                          [(j_roomId item,
                                            \<lparr> m_userId = j_userId item, m_text = text,
                                              m_timestamp = timestamp \<rparr>)] \<rparr>)
                              else t1);
                    t3 = t2\<lparr> files := (files t2)(a_wavPath a := None), isProcessing := False \<rparr>
                in processQueue t3 now)))"

definition queueTranscription ::
  "transcriber \<Rightarrow> string \<Rightarrow> peerData \<Rightarrow> nat \<Rightarrow> peerData \<times> transcriber" where
  "queueTranscription t socketId pd now =
     (if p_buffer pd = [] then (pd, t)
      else
        (let audioBuffer = concat (p_buffer pd);
             pd' = pd\<lparr> p_buffer := [], p_bufferDuration := Fin 0 \<rparr>;
             t1 = t\<lparr> calls := calls t @ [HasVoiceActivity In_queueTranscription audioBuffer] \<rparr>
         in if \<not> hasVoiceActivity audioBuffer then (pd', t1)
            else
              (let t2 = (if length (queue t1) \<ge> 3 then t1\<lparr> queue := tl (queue t1) \<rparr> else t1);
                   t3 = t2\<lparr> queue := queue t2 @
                            [\<lparr> j_socketId = socketId, j_userId = p_userId pd',
                              j_roomId = p_roomId pd', j_audioBuffer = audioBuffer,
                              j_sampleRate = p_sampleRate pd',
                              j_channelCount = p_channelCount pd' \<rparr>] \<rparr>
               in (pd', processQueue t3 now))))"

section \<open>Peers\<close>

definition roomHasPeers :: "transcriber \<Rightarrow> string \<Rightarrow> bool" where
  "roomHasPeers t roomId = list_ex (\<lambda>(socketId, pd). p_roomId pd = roomId) (peers t)"

text \<open>A missing or empty \<open>userId\<close> is the empty string (\<^verbatim>\<open>userId || socketId\<close>).\<close>

definition createPeer :: "transcriber \<Rightarrow> string \<Rightarrow> string \<Rightarrow> string \<Rightarrow> nat \<Rightarrow> transcriber" where
  "createPeer t socketId roomId userId now =
     (let t1 = (if \<not> roomHasPeers t roomId then snd (startSession t roomId now) else t);
          pd = \<lparr> p_audioSink = False, p_buffer = [], p_bufferDuration = Fin 0,
                 p_userId = (if userId = [] then socketId else userId),
                 p_roomId = roomId, p_sampleRate = 48000, p_channelCount = 1 \<rparr>
      in t1\<lparr> peers := AList.update socketId pd (peers t1) \<rparr>)"

text \<open>The \<^verbatim>\<open>ondata\<close> handler that \<^verbatim>\<open>setupAudioSink\<close> installs.\<close>

definition ondata ::
  "transcriber \<Rightarrow> string \<Rightarrow> peerData \<Rightarrow> frame \<Rightarrow> nat \<Rightarrow> peerData \<times> transcriber" where
  "ondata t socketId pd d now =
     (let pd1 = pd\<lparr> p_buffer := p_buffer pd @ [f_samples_buffer d],
                    p_bufferDuration :=
                      js_add (p_bufferDuration pd) (js_div (f_samples_length d) (f_sampleRate d)),
                    p_sampleRate := f_sampleRate d,
                    p_channelCount := f_channelCount d \<rparr>
      in if js_ge (p_bufferDuration pd1) (bufferDuration t)
         then queueTranscription t socketId pd1 now
         else (pd1, t))"

definition setupAudioSink :: "transcriber \<Rightarrow> string \<Rightarrow> transcriber" where
  "setupAudioSink t socketId =
     (case map_of (peers t) socketId of
        None \<Rightarrow> t
      | Some pd \<Rightarrow> t\<lparr> peers := AList.update socketId (pd\<lparr> p_audioSink := True \<rparr>) (peers t) \<rparr>)"

definition removePeer :: "transcriber \<Rightarrow> string \<Rightarrow> nat \<Rightarrow> transcriber" where
  "removePeer t socketId now =
     (case map_of (peers t) socketId of
        None \<Rightarrow> t
      | Some pd \<Rightarrow>
          (let roomId = p_roomId pd;
               t1 = t\<lparr> peers := AList.delete socketId (peers t) \<rparr>
           in if \<not> roomHasPeers t1 roomId then endSession t1 roomId now else t1))"

section \<open>Runs of the coordinator\<close>

text \<open>
  Everything happens on one thread, event after event: an offer (\<^verbatim>\<open>handleOffer\<close> calls
  \<^verbatim>\<open>createPeer\<close>), the audio track of a peer arriving, a frame delivered by the sink of a
  registered peer, the removal of a peer, and the settling of the call the worker awaits.
  \<^verbatim>\<open>createPeer\<close> on a socket id that is already registered replaces the map entry without
  stopping the sink of the replaced \<^verbatim>\<open>peerData\<close>, whose handler keeps its own object: a
  frame for such an object is the event \<open>Orphan\<close>, with the object as a parameter.
\<close>

datatype event =
    Offer string string string nat
  | Track string
  | Audio string frame nat
  | Orphan string peerData frame nat
  | Remove string nat
  | Settle outcome nat

fun step :: "transcriber \<Rightarrow> event \<Rightarrow> transcriber" where
  "step t (Offer socketId roomId userId now) = createPeer t socketId roomId userId now"
| "step t (Track socketId) = setupAudioSink t socketId"
| "step t (Audio socketId d now) =
     (case map_of (peers t) socketId of
        None \<Rightarrow> t
      | Some pd \<Rightarrow>
          if p_audioSink pd then
            (let (pd', t') = ondata t socketId pd d now
             in t'\<lparr> peers := AList.update socketId pd' (peers t') \<rparr>)
          else t)"
| "step t (Orphan socketId pd d now) = snd (ondata t socketId pd d now)"
| "step t (Remove socketId now) = removePeer t socketId now"
| "step t (Settle out now) = settle t out now"

definition run :: "transcriber \<Rightarrow> event list \<Rightarrow> transcriber" where
  "run t evs = foldl step t evs"

text \<open>The number of provider calls that have been issued and have not settled.\<close>

definition in_flight :: "transcriber \<Rightarrow> nat" where
  "in_flight t = length (filter (\<lambda>a. a_early a = None) (awaiting t))"

section \<open>Notions used in the statements\<close>

text \<open>The header \<^verbatim>\<open>writeWav\<close> builds, written out, and the condition under which no write throws.\<close>

definition wav_header :: "nat \<Rightarrow> nat \<Rightarrow> nat \<Rightarrow> bytes" where
  "wav_header d r c =
     map byte_of_char ''RIFF'' @
     [of_nat (36 + d), of_nat ((36 + d) div 256), of_nat ((36 + d) div 65536),
      of_nat ((36 + d) div 16777216)] @
     map byte_of_char ''WAVEfmt '' @
     [16, 0, 0, 0, 1, 0, of_nat c, of_nat (c div 256),
      of_nat r, of_nat (r div 256), of_nat (r div 65536), of_nat (r div 16777216),
      of_nat (r * c * 2), of_nat (r * c * 2 div 256), of_nat (r * c * 2 div 65536),
      of_nat (r * c * 2 div 16777216),
      of_nat (c * 2), of_nat (c * 2 div 256), 16, 0] @
     map byte_of_char ''data'' @
     [of_nat d, of_nat (d div 256), of_nat (d div 65536), of_nat (d div 16777216)]"

definition encodable :: "nat \<Rightarrow> nat \<Rightarrow> nat \<Rightarrow> bool" where
  "encodable d r c =
     (36 + d \<le> 4294967295 \<and> r \<le> 4294967295 \<and> r * c * 2 \<le> 4294967295 \<and> c * 2 \<le> 65535)"

definition job_container :: "job \<Rightarrow> bytes" where
  "job_container j =
     wav_header (length (j_audioBuffer j)) (j_sampleRate j) (j_channelCount j) @ j_audioBuffer j"

definition job_encodable :: "job \<Rightarrow> bool" where
  "job_encodable j = encodable (length (j_audioBuffer j)) (j_sampleRate j) (j_channelCount j)"

text \<open>The payload a decoder takes out of a container: the declared number of bytes after the header.\<close>

definition wav_payload :: "bytes \<Rightarrow> bytes" where
  "wav_payload w = take (readUInt32LE w 40) (drop 44 w)"

definition sum_abs :: "bytes \<Rightarrow> nat" where
  "sum_abs b = sum_list (map (\<lambda>x. nat \<bar>x\<bar>) (Int16Array b))"

text \<open>The job that a flush of \<open>pd\<close> puts into the queue.\<close>

definition flushed_job :: "string \<Rightarrow> peerData \<Rightarrow> job" where
  "flushed_job socketId pd =
     \<lparr> j_socketId = socketId, j_userId = p_userId pd, j_roomId = p_roomId pd,
       j_audioBuffer = concat (p_buffer pd), j_sampleRate = p_sampleRate pd,
       j_channelCount = p_channelCount pd \<rparr>"






text \<open>The facts about the worker that hold in every state a run reaches.\<close>

definition passed_gate :: "transcriber \<Rightarrow> job \<Rightarrow> bool" where
  "passed_gate t j =
     (hasVoiceActivity (j_audioBuffer j) \<and>
      HasVoiceActivity In_queueTranscription (j_audioBuffer j) \<in> set (calls t))"

fun is_wav_path :: "path \<Rightarrow> bool" where
  "is_wav_path (WavFile socketId now) = True"
| "is_wav_path (SessionFile roomId now) = False"

definition worker_ok :: "transcriber \<Rightarrow> bool" where
  "worker_ok t =
     (length (awaiting t) \<le> 1 \<and>
      (awaiting t \<noteq> [] \<longrightarrow> isProcessing t) \<and>
      length (queue t) \<le> 3 \<and>
      list_all (passed_gate t) (queue t) \<and>
      list_all (\<lambda>a. passed_gate t (a_item a) \<and> a_early a = None \<and> is_wav_path (a_wavPath a))
        (awaiting t))"

definition pipeline_ok :: "transcriber \<Rightarrow> bool" where
  "pipeline_ok t = (worker_ok t \<and> (\<not> isProcessing t \<longrightarrow> queue t = []))"

text \<open>
  What the start of a job adds to the log, and whether its promise is settled at once,
  for the provider \<open>prov\<close>.
\<close>

definition begin_calls :: "string \<Rightarrow> job \<Rightarrow> nat \<Rightarrow> call list" where
  "begin_calls prov j now =
     (if prov = ''groq'' then
        HasVoiceActivity In_transcribeWithGroq (job_container j) #
          (if hasVoiceActivity (job_container j) then [GroqCreate (job_container j)] else [])
      else [SpawnWhisper (WavFile (j_socketId j) now)])"

definition begin_early :: "string \<Rightarrow> job \<Rightarrow> (js_error + string) option" where
  "begin_early prov j =
     (if prov = ''groq'' \<and> \<not> hasVoiceActivity (job_container j) then Some (Inr []) else None)"

section \<open>A small scenario\<close>

text \<open>
  Five samples at 1 Hz are five seconds of audio, the configured buffer duration; the
  high byte \<open>k\<close> of every sample tells the segments apart (amplitude \<open>232 + 256 * k\<close>).
\<close>

definition tone_bytes :: "byte \<Rightarrow> bytes" where
  "tone_bytes k = [232, k, 232, k, 232, k, 232, k, 232, k]"

definition tone :: "byte \<Rightarrow> frame" where
  "tone k = \<lparr> f_samples_buffer = tone_bytes k,
              f_samples_length = 5, f_sampleRate = 1, f_channelCount = 1 \<rparr>"

definition tone_job :: "byte \<Rightarrow> job" where
  "tone_job k = \<lparr> j_socketId = ''s1'', j_userId = ''A'', j_roomId = ''standup'',
                  j_audioBuffer = tone_bytes k, j_sampleRate = 1, j_channelCount = 1 \<rparr>"

text \<open>Peer \<open>A\<close> joins room \<open>standup\<close> on socket \<open>s1\<close> and its audio track arrives.\<close>

definition joined :: "string \<Rightarrow> string \<Rightarrow> transcriber" where
  "joined cfgProvider apiKey =
     run (new_Transcriber cfgProvider apiKey) [Offer ''s1'' ''standup'' ''A'' 100, Track ''s1'']"

definition one_segment :: "string \<Rightarrow> string \<Rightarrow> transcriber" where
  "one_segment cfgProvider apiKey =
     run (new_Transcriber cfgProvider apiKey)
       [Offer ''s1'' ''standup'' ''A'' 100, Track ''s1'', Audio ''s1'' (tone 3) 200]"

definition two_segments :: "string \<Rightarrow> string \<Rightarrow> transcriber" where
  "two_segments cfgProvider apiKey =
     run (new_Transcriber cfgProvider apiKey)
       [Offer ''s1'' ''standup'' ''A'' 100, Track ''s1'', Audio ''s1'' (tone 3) 200,
        Audio ''s1'' (tone 4) 201]"

definition four_segments :: "string \<Rightarrow> string \<Rightarrow> transcriber" where
  "four_segments cfgProvider apiKey =
     run (new_Transcriber cfgProvider apiKey)
       [Offer ''s1'' ''standup'' ''A'' 100, Track ''s1'', Audio ''s1'' (tone 3) 200,
        Audio ''s1'' (tone 4) 201, Audio ''s1'' (tone 5) 202, Audio ''s1'' (tone 6) 203]"

text \<open>The peer leaves while its first segment is being transcribed.\<close>

definition left_early :: "string \<Rightarrow> string \<Rightarrow> transcriber" where
  "left_early cfgProvider apiKey =
     run (new_Transcriber cfgProvider apiKey)
       [Offer ''s1'' ''standup'' ''A'' 100, Track ''s1'', Audio ''s1'' (tone 3) 200,
        Remove ''s1'' 250]"

definition tone_pending :: "byte \<Rightarrow> nat \<Rightarrow> pending" where
  "tone_pending k now =
     \<lparr> a_item = tone_job k, a_wavPath = WavFile ''s1'' now, a_early = None \<rparr>"

definition tone_peer :: "bytes list \<Rightarrow> peerData" where
  "tone_peer chunks =
     \<lparr> p_audioSink = True, p_buffer = chunks, p_bufferDuration = Fin 0, p_userId = ''A'',
       p_roomId = ''standup'', p_sampleRate = 1, p_channelCount = 1 \<rparr>"

text \<open>A line of text as the whisper process writes it: the phrase and a line feed.\<close>

definition thank_you_line :: string where
  "thank_you_line = ''Thank you.'' @ [CHR 0x0A]"


section \<open>The container encoder: lemmas\<close>

lemma Buffer_alloc_44:
  "Buffer_alloc 44 =
     [0,0,0,0,0,0,0,0,0,0,0,0,0,0,0,0,0,0,0,0,0,0,0,0,0,0,0,0,0,0,0,0,0,0,0,0,0,0,0,0,0,0,0,0]"
  by (simp add: Buffer_alloc_def numeral_eq_Suc)

lemma writeWav_eq:
  "writeWav fs p pcm r c =
     (if encodable (length pcm) r c
      then Inr (fs(p \<mapsto> Bytes (wav_header (length pcm) r c @ pcm)))
      else Inl RangeError)"
  by (simp add: writeWav_def Let_def writeUInt32LE_def writeUInt16LE_def buf_write_def
      splice_def Buffer_alloc_44 wav_header_def encodable_def)

lemma length_wav_header: "length (wav_header d r c) = 44"
  by (simp add: wav_header_def)

lemma le32_nat:
  assumes "v \<le> (4294967295::nat)"
  shows "v mod 256 + 256 * (v div 256 mod 256) + 65536 * (v div 65536 mod 256)
           + 16777216 * (v div 16777216 mod 256) = v"
proof -
  define a where "a = v div 256"
  define b where "b = a div 256"
  define c where "c = b div 256"
  have va: "v = v mod 256 + 256 * a" by (simp add: a_def)
  have ab: "a = a mod 256 + 256 * b" by (simp add: b_def)
  have bc: "b = b mod 256 + 256 * c" by (simp add: c_def)
  have b': "v div 65536 = b" by (simp add: a_def b_def div_mult2_eq)
  have c': "v div 16777216 = c" by (simp add: a_def b_def c_def div_mult2_eq)
  have "c < 256" using assms unfolding c'[symmetric] by simp
  then have cc: "c mod 256 = c" by simp
  have "v mod 256 + 256 * (a mod 256) + 65536 * (b mod 256) + 16777216 * c = v"
    using va ab bc by linarith
  then show ?thesis by (simp add: a_def[symmetric] b' c' cc)
qed

lemma le32_bytes:
  "v \<le> 4294967295 \<Longrightarrow>
     unat (of_nat v :: byte) + 256 * unat (of_nat (v div 256) :: byte)
       + 65536 * unat (of_nat (v div 65536) :: byte)
       + 16777216 * unat (of_nat (v div 16777216) :: byte) = v"
  using le32_nat[of v] by (simp add: unat_of_nat)

lemma le16_bytes:
  "v \<le> 65535 \<Longrightarrow> unat (of_nat v :: byte) + 256 * unat (of_nat (v div 256) :: byte) = v"
  by (simp add: unat_of_nat)

lemma header_fields:
  assumes "encodable d r c"
  shows "readUInt32LE (wav_header d r c @ P) 4 = 36 + d"
    and "readUInt32LE (wav_header d r c @ P) 28 = r * c * 2"
    and "readUInt16LE (wav_header d r c @ P) 32 = c * 2"
    and "readUInt32LE (wav_header d r c @ P) 40 = d"
proof -
  have b: "36 + d \<le> 4294967295" "r * c * 2 \<le> 4294967295" "c * 2 \<le> 65535" "d \<le> 4294967295"
    using assms by (simp_all add: encodable_def)
  show "readUInt32LE (wav_header d r c @ P) 4 = 36 + d"
    using le32_bytes[OF b(1)] by (simp add: readUInt32LE_def wav_header_def)
  show "readUInt32LE (wav_header d r c @ P) 28 = r * c * 2"
    using le32_bytes[OF b(2)] by (simp add: readUInt32LE_def wav_header_def)
  show "readUInt16LE (wav_header d r c @ P) 32 = c * 2"
    using le16_bytes[OF b(3)] by (simp add: readUInt16LE_def wav_header_def)
  show "readUInt32LE (wav_header d r c @ P) 40 = d"
    using le32_bytes[OF b(4)] by (simp add: readUInt32LE_def wav_header_def)
qed

section \<open>The voice-activity gate: lemmas\<close>

lemma Int16Array_append:
  "even (length a) \<Longrightarrow> Int16Array (a @ b) = Int16Array a @ Int16Array b"
  by (induction a rule: Int16Array.induct) simp_all

lemma foldl_abs: "foldl (\<lambda>s x. s + nat \<bar>x\<bar>) a xs = a + sum_list (map (\<lambda>x. nat \<bar>x\<bar>) xs)"
  by (induction xs arbitrary: a) simp_all

lemma hasVoiceActivity_iff:
  "hasVoiceActivity b \<longleftrightarrow> (Int16Array b \<noteq> [] \<and> sum_abs b > 50 * length (Int16Array b))"
proof (cases "Int16Array b = []")
  case True
  then show ?thesis by (simp add: hasVoiceActivity_def avgEnergy_def js_div_def)
next
  case False
  let ?n = "length (Int16Array b)"
  have n: "0 < ?n" using False by simp
  have "(50 < (of_nat (sum_abs b) :: rat) / of_nat ?n)
          = (50 * of_nat ?n < (of_nat (sum_abs b) :: rat))"
    using n by (simp add: pos_less_divide_eq)
  also have "\<dots> = ((of_nat (50 * ?n) :: rat) < of_nat (sum_abs b))"
    by simp
  also have "\<dots> = (50 * ?n < sum_abs b)"
    by (simp only: of_nat_less_iff)
  finally have "(50 < (of_nat (sum_abs b) :: rat) / of_nat ?n) = (50 * ?n < sum_abs b)" .
  then show ?thesis
    using False
    by (simp add: hasVoiceActivity_def avgEnergy_def js_div_def sum_abs_def foldl_abs Let_def)
qed

lemma header_samples:
  "length (Int16Array (wav_header d r c)) = 22 \<and> sum_abs (wav_header d r c) \<ge> 18770"
  by (simp add: wav_header_def sum_abs_def byte_of_char_def int16_of_def)

text \<open>
  The first two bytes of a container, \<^verbatim>\<open>RI\<close>, read as one sample of amplitude 18770:
  the 22 samples of the header alone lift the mean above the threshold.
\<close>

lemma container_voiced:
  assumes "hasVoiceActivity P"
  shows "hasVoiceActivity (wav_header d r c @ P)"
proof -
  have s: "Int16Array (wav_header d r c @ P) = Int16Array (wav_header d r c) @ Int16Array P"
    by (rule Int16Array_append) (simp add: length_wav_header)
  have "sum_abs (wav_header d r c @ P) = sum_abs (wav_header d r c) + sum_abs P"
    by (simp add: sum_abs_def s)
  then show ?thesis
    using assms header_samples[of d r c] by (simp add: hasVoiceActivity_iff s)
qed

section \<open>The worker: what every reachable state satisfies\<close>

lemma processQueue_idle: "isProcessing t \<or> queue t = [] \<Longrightarrow> processQueue t now = t"
  by (auto simp add: processQueue_def)

lemma processQueue_start:
  assumes "\<not> isProcessing t" "queue t = j # q"
  shows "processQueue t now =
     (if job_encodable j then
        t\<lparr> isProcessing := True, queue := q,
           files := (files t)(WavFile (j_socketId j) now \<mapsto> Bytes (job_container j)),
           calls := calls t @ begin_calls (provider t) j now,
           awaiting := awaiting t @
             [\<lparr> a_item = j, a_wavPath = WavFile (j_socketId j) now,
                a_early = begin_early (provider t) j \<rparr>] \<rparr>
      else t\<lparr> isProcessing := True, queue := q \<rparr>)"
  using assms
  by (simp add: processQueue_def writeWav_eq Let_def transcribeWithGroq_begin_def
      transcribeWithLocalWhisper_begin_def readFileSync_def job_encodable_def job_container_def
      begin_calls_def begin_early_def)

lemma passed_gate_mono:
  "passed_gate t j \<Longrightarrow> set (calls t) \<subseteq> set (calls t') \<Longrightarrow> passed_gate t' j"
  by (auto simp add: passed_gate_def)

lemma begin_early_voiced:
  "hasVoiceActivity (j_audioBuffer j) \<Longrightarrow> begin_early prov j = None"
  by (simp add: begin_early_def job_container_def container_voiced)

lemma pipeline_ok_processQueue:
  assumes w: "worker_ok t"
  shows "pipeline_ok (processQueue t now)"
proof (cases "isProcessing t \<or> queue t = []")
  case True
  then show ?thesis using w by (auto simp add: processQueue_idle pipeline_ok_def)
next
  case False
  then obtain j q where jq: "\<not> isProcessing t" "queue t = j # q"
    by (cases "queue t") auto
  have aw: "awaiting t = []" using w jq by (auto simp add: worker_ok_def)
  have pj: "passed_gate t j" and pq: "list_all (passed_gate t) q" and lq: "length q \<le> 2"
    using w jq by (auto simp add: worker_ok_def)
  have early: "begin_early (provider t) j = None"
    using pj by (simp add: passed_gate_def begin_early_voiced)
  show ?thesis
  proof (cases "job_encodable j")
    case True
    have "list_all (passed_gate (processQueue t now)) q"
      using pq by (auto simp add: list_all_iff processQueue_start[OF jq] True passed_gate_def)
    moreover have "passed_gate (processQueue t now) j"
      using pj by (auto simp add: processQueue_start[OF jq] True passed_gate_def)
    ultimately show ?thesis
      using lq early by (simp add: pipeline_ok_def worker_ok_def processQueue_start[OF jq] True aw)
  next
    case False
    then show ?thesis
      using pq lq
      by (auto simp add: pipeline_ok_def worker_ok_def processQueue_start[OF jq] aw list_all_iff
          passed_gate_def)
  qed
qed

lemma pipeline_ok_queueTranscription:
  assumes ok: "pipeline_ok t"
  shows "pipeline_ok (snd (queueTranscription t socketId pd now))"
proof (cases "p_buffer pd = []")
  case True
  then show ?thesis using ok by (simp add: queueTranscription_def)
next
  case False
  let ?b = "concat (p_buffer pd)"
  let ?t1 = "t\<lparr> calls := calls t @ [HasVoiceActivity In_queueTranscription ?b] \<rparr>"
  have w1: "worker_ok ?t1"
    using ok by (auto simp add: pipeline_ok_def worker_ok_def list_all_iff passed_gate_def)
  show ?thesis
  proof (cases "hasVoiceActivity ?b")
    case nv: False
    then show ?thesis
      using False ok w1 by (simp add: queueTranscription_def Let_def pipeline_ok_def)
  next
    case v: True
    let ?q = "(if length (queue t) \<ge> 3 then tl (queue t) else queue t)"
    let ?t3 = "?t1\<lparr> queue := ?q @ [flushed_job socketId pd] \<rparr>"
    have eq: "snd (queueTranscription t socketId pd now) = processQueue ?t3 now"
      using False v by (simp add: queueTranscription_def Let_def flushed_job_def)
    have "length ?q \<le> 2"
      using ok by (cases "queue t") (auto simp add: pipeline_ok_def worker_ok_def)
    moreover have "set ?q \<subseteq> set (queue t)"
      by (cases "queue t") auto
    ultimately have "worker_ok ?t3"
      using w1 v by (auto simp add: worker_ok_def list_all_iff passed_gate_def flushed_job_def)
    then show ?thesis unfolding eq by (rule pipeline_ok_processQueue)
  qed
qed

lemma saveTranscription_worker:
  "isProcessing (saveTranscription t r u x ts) = isProcessing t"
  "queue (saveTranscription t r u x ts) = queue t"
  "awaiting (saveTranscription t r u x ts) = awaiting t"
  "calls (saveTranscription t r u x ts) = calls t"
  "provider (saveTranscription t r u x ts) = provider t"
  "emitted (saveTranscription t r u x ts) = emitted t"
  "peers (saveTranscription t r u x ts) = peers t"
  by (simp_all add: saveTranscription_def Let_def split: option.splits)

lemma pipeline_ok_settle:
  assumes ok: "pipeline_ok t"
  shows "pipeline_ok (settle t out now)"
proof (cases "awaiting t")
  case Nil
  then show ?thesis using ok by (simp add: settle_def)
next
  case (Cons a rest)
  have rest: "rest = []" using ok Cons by (simp add: pipeline_ok_def worker_ok_def)
  show ?thesis
  proof (cases "await_result (provider t) a out")
    case None
    then show ?thesis using ok Cons by (simp add: settle_def)
  next
    case (Some r)
    obtain t3 where t3: "settle t out now = processQueue t3 now"
      and f: "awaiting t3 = []" "queue t3 = queue t" "calls t3 = calls t"
      using Cons Some rest
      by (cases r) (auto simp add: settle_def Let_def saveTranscription_worker)
    have "worker_ok t3"
      using ok f by (auto simp add: pipeline_ok_def worker_ok_def list_all_iff passed_gate_def)
    then show ?thesis unfolding t3 by (rule pipeline_ok_processQueue)
  qed
qed


lemma pipeline_ok_cong:
  "isProcessing t' = isProcessing t \<Longrightarrow> queue t' = queue t \<Longrightarrow> awaiting t' = awaiting t \<Longrightarrow>
   calls t' = calls t \<Longrightarrow> pipeline_ok t' = pipeline_ok t"
  by (simp add: pipeline_ok_def worker_ok_def list_all_iff passed_gate_def)

lemma startSession_worker:
  "isProcessing (snd (startSession t r now)) = isProcessing t"
  "queue (snd (startSession t r now)) = queue t"
  "awaiting (snd (startSession t r now)) = awaiting t"
  "calls (snd (startSession t r now)) = calls t"
  "provider (snd (startSession t r now)) = provider t"
  "emitted (snd (startSession t r now)) = emitted t"
  "peers (snd (startSession t r now)) = peers t"
  by (simp_all add: startSession_def Let_def split: option.splits)

lemma endSession_worker:
  "isProcessing (endSession t r now) = isProcessing t"
  "queue (endSession t r now) = queue t"
  "awaiting (endSession t r now) = awaiting t"
  "calls (endSession t r now) = calls t"
  "provider (endSession t r now) = provider t"
  "emitted (endSession t r now) = emitted t"
  "peers (endSession t r now) = peers t"
  by (simp_all add: endSession_def Let_def split: option.splits)

lemma createPeer_worker:
  "isProcessing (createPeer t s r u now) = isProcessing t"
  "queue (createPeer t s r u now) = queue t"
  "awaiting (createPeer t s r u now) = awaiting t"
  "calls (createPeer t s r u now) = calls t"
  "provider (createPeer t s r u now) = provider t"
  "emitted (createPeer t s r u now) = emitted t"
  by (simp_all add: createPeer_def Let_def startSession_worker)

lemma setupAudioSink_worker:
  "isProcessing (setupAudioSink t s) = isProcessing t"
  "queue (setupAudioSink t s) = queue t"
  "awaiting (setupAudioSink t s) = awaiting t"
  "calls (setupAudioSink t s) = calls t"
  "provider (setupAudioSink t s) = provider t"
  "emitted (setupAudioSink t s) = emitted t"
  by (simp_all add: setupAudioSink_def split: option.splits)

lemma removePeer_worker:
  "isProcessing (removePeer t s now) = isProcessing t"
  "queue (removePeer t s now) = queue t"
  "awaiting (removePeer t s now) = awaiting t"
  "calls (removePeer t s now) = calls t"
  "provider (removePeer t s now) = provider t"
  "emitted (removePeer t s now) = emitted t"
  by (simp_all add: removePeer_def Let_def endSession_worker split: option.splits)

lemma pipeline_ok_ondata:
  "pipeline_ok t \<Longrightarrow> pipeline_ok (snd (ondata t socketId pd d now))"
  by (simp add: ondata_def Let_def pipeline_ok_queueTranscription)

lemma pipeline_ok_step:
  assumes "pipeline_ok t"
  shows "pipeline_ok (step t ev)"
proof (cases ev)
  case (Offer s r u now)
  then show ?thesis using assms by (simp add: pipeline_ok_cong[OF createPeer_worker(1-4)])
next
  case (Track s)
  then show ?thesis using assms by (simp add: pipeline_ok_cong[OF setupAudioSink_worker(1-4)])
next
  case (Audio s d now)
  show ?thesis
  proof (cases "map_of (peers t) s")
    case None
    then show ?thesis using assms Audio by simp
  next
    case (Some pd)
    obtain pd' t' where o: "ondata t s pd d now = (pd', t')" by (cases "ondata t s pd d now")
    have "pipeline_ok t'" using pipeline_ok_ondata[OF assms, of s pd d now] o by simp
    then have "pipeline_ok (t'\<lparr> peers := AList.update s pd' (peers t') \<rparr>)"
      by (simp add: pipeline_ok_def worker_ok_def list_all_iff passed_gate_def)
    then show ?thesis using assms Audio Some o by simp
  qed
next
  case (Orphan s pd d now)
  then show ?thesis using assms by (simp add: pipeline_ok_ondata)
next
  case (Remove s now)
  then show ?thesis using assms by (simp add: pipeline_ok_cong[OF removePeer_worker(1-4)])
next
  case (Settle out now)
  then show ?thesis using assms by (simp add: pipeline_ok_settle)
qed

lemma pipeline_ok_run: "pipeline_ok t \<Longrightarrow> pipeline_ok (run t evs)"
  unfolding run_def by (induction evs arbitrary: t) (simp_all add: pipeline_ok_step)

lemma pipeline_ok_new: "pipeline_ok (new_Transcriber cfg key)"
  by (simp add: pipeline_ok_def worker_ok_def new_Transcriber_def)

lemma pipeline_ok_reachable: "pipeline_ok (run (new_Transcriber cfg key) evs)"
  by (rule pipeline_ok_run[OF pipeline_ok_new])

lemma settle_eq:
  assumes "awaiting t = a # rest" "await_result (provider t) a out = Some r"
  shows "\<exists>t3. settle t out now = processQueue t3 now \<and> \<not> isProcessing t3 \<and> queue t3 = queue t \<and>
              awaiting t3 = rest \<and> calls t3 = calls t \<and> provider t3 = provider t"
  using assms by (cases r) (auto simp add: settle_def Let_def saveTranscription_worker)


lemma processQueue_other:
  "sessions (processQueue t now) = sessions t \<and> emitted (processQueue t now) = emitted t \<and>
   provider (processQueue t now) = provider t \<and> peers (processQueue t now) = peers t \<and>
   files (processQueue t now) (SessionFile r n) = files t (SessionFile r n)"
proof (cases "isProcessing t \<or> queue t = []")
  case True
  then show ?thesis by (simp add: processQueue_idle)
next
  case False
  then obtain j q where "\<not> isProcessing t" "queue t = j # q" by (cases "queue t") auto
  then show ?thesis by (simp add: processQueue_start)
qed




lemma queue_or_awaiting_passed:
  assumes "pipeline_ok T" "j \<in> set (queue T) \<union> a_item ` set (awaiting T)"
  shows "passed_gate T j"
  using assms by (auto simp add: pipeline_ok_def worker_ok_def list_all_iff)

lemma processQueue_drain:
  assumes "\<not> isProcessing t" "awaiting t = []"
  shows "isProcessing (processQueue t now) = (queue t \<noteq> []) \<and>
         queue (processQueue t now) = tl (queue t) \<and>
         map a_item (awaiting (processQueue t now)) =
           (if queue t \<noteq> [] \<and> job_encodable (hd (queue t)) then [hd (queue t)] else [])"
proof (cases "queue t")
  case Nil
  then show ?thesis using assms by (simp add: processQueue_idle)
next
  case (Cons j q)
  then show ?thesis using assms by (simp add: processQueue_start[of t j q])
qed

lemma js_trim_Nil: "js_trim [] = []"
  by (simp add: js_trim_def)

lemma settle_failed:
  assumes "awaiting t = a # rest" "await_result (provider t) a out = Some (Inl e)"
  shows "settle t out now =
           processQueue (t\<lparr> awaiting := rest, files := (files t)(a_wavPath a := None),
                            isProcessing := False \<rparr>) now"
  using assms by (simp add: settle_def Let_def)

lemma settle_text_no_session:
  assumes "awaiting t = a # rest" "await_result (provider t) a out = Some (Inr x)"
    "js_trim x \<noteq> []" "sessions t (j_roomId (a_item a)) = None"
  shows "settle t out now =
           processQueue (t\<lparr> awaiting := rest,
                            emitted := emitted t @
                              [(j_roomId (a_item a),
                                \<lparr> m_userId = j_userId (a_item a), m_text = js_trim x,
                                  m_timestamp = now \<rparr>)],
                            files := (files t)(a_wavPath a := None),
                            isProcessing := False \<rparr>) now"
proof -
  have "x \<noteq> []" using assms(3) js_trim_Nil by auto
  then show ?thesis
    using assms by (simp add: settle_def Let_def saveTranscription_def)
qed

lemma wav_path_not_session: "is_wav_path p \<Longrightarrow> p \<noteq> SessionFile r n"
  by (cases p) auto

lemma awaiting_head:
  assumes "pipeline_ok T" "awaiting T = a # rest"
  shows "rest = [] \<and> a_early a = None \<and> is_wav_path (a_wavPath a)"
  using assms by (simp add: pipeline_ok_def worker_ok_def)


section \<open>Frames and flushes\<close>






section \<open>The scenario, evaluated\<close>

lemma tone_voiced:
  "hasVoiceActivity [232, 3, 232, 3, 232, 3, 232, 3, 232, 3]"
  "hasVoiceActivity [232, 4, 232, 4, 232, 4, 232, 4, 232, 4]"
  "hasVoiceActivity [232, 5, 232, 5, 232, 5, 232, 5, 232, 5]"
  "hasVoiceActivity [232, 6, 232, 6, 232, 6, 232, 6, 232, 6]"
  "hasVoiceActivity [232, 7, 232, 7, 232, 7, 232, 7, 232, 7]"
  by (simp_all add: hasVoiceActivity_def avgEnergy_def js_div_def int16_of_def)

lemmas eval_defs = run_def new_Transcriber_def createPeer_def roomHasPeers_def startSession_def
  setupAudioSink_def ondata_def queueTranscription_def processQueue_def settle_def await_result_def
  saveTranscription_def transcribeWithLocalWhisper_begin_def transcribeWithLocalWhisper_close_def
  transcribeWithGroq_begin_def js_div_def config_bufferDuration_def writeWav_eq encodable_def
  Let_def readFileSync_def removePeer_def endSession_def tone_bytes_def tone_def tone_job_def
  tone_pending_def
  tone_peer_def flushed_job_def job_encodable_def job_container_def tone_voiced container_voiced

lemma two_segments_local:
  "isProcessing (two_segments ''local-whisper'' [])"
  "queue (two_segments ''local-whisper'' []) = [tone_job 4]"
  "awaiting (two_segments ''local-whisper'' []) = [tone_pending 3 200]"
  "provider (two_segments ''local-whisper'' []) = ''local-whisper''"
  "calls (two_segments ''local-whisper'' []) =
     [HasVoiceActivity In_queueTranscription (j_audioBuffer (tone_job 3)),
      SpawnWhisper (WavFile ''s1'' 200),
      HasVoiceActivity In_queueTranscription (j_audioBuffer (tone_job 4))]"
  by (simp_all add: two_segments_def eval_defs)

lemma four_segments_local:
  "queue (four_segments ''local-whisper'' []) = [tone_job 4, tone_job 5, tone_job 6]"
  by (simp add: four_segments_def eval_defs)


lemma left_early_state:
  "awaiting (left_early ''local-whisper'' []) = [tone_pending 3 200]"
  "provider (left_early ''local-whisper'' []) = ''local-whisper''"
  "sessions (left_early ''local-whisper'' []) ''standup'' = None"
  "emitted (left_early ''local-whisper'' []) = []"
  "peers (left_early ''local-whisper'' []) = []"
  by (simp_all add: left_early_def eval_defs)

lemma filler_texts:
  "js_trim thank_you_line = ''Thank you.''"
  "transcribeWithGroq_end thank_you_line = []"
  "transcribeWithGroq_end ''hello there'' = ''hello there''"
  "js_trim ''hello'' = ''hello''"
  unfolding thank_you_line_def by code_simp+

lemma thank_you_line_nonempty: "thank_you_line \<noteq> []"
  by (simp add: thank_you_line_def)
section \<open>The properties\<close>

text \<open>
  C1. In every state a run reaches, at most one provider call is in flight, whatever the
  rooms and peers. \<^verbatim>\<open>processQueue\<close> does nothing while \<^verbatim>\<open>isProcessing\<close> is set. When the
  awaited call settles, with a text or with an exception, the same step goes on to the
  next queued job: the flag is set again exactly when the queue was not empty, the head
  of the queue has been removed, and the head is the job now awaited (provided its
  container could be written).
\<close>

theorem single_transcription_in_flight:
  assumes T: "T = run (new_Transcriber cfg key) evs"
  shows "in_flight T \<le> 1 \<and>
         (isProcessing t \<longrightarrow> processQueue t now = t) \<and>
         (\<forall>a rest r. awaiting T = a # rest \<and> await_result (provider T) a out = Some r \<longrightarrow>
            isProcessing (settle T out now) = (queue T \<noteq> []) \<and>
            queue (settle T out now) = tl (queue T) \<and>
            map a_item (awaiting (settle T out now)) =
              (if queue T \<noteq> [] \<and> job_encodable (hd (queue T)) then [hd (queue T)] else []))"
proof -
  have ok: "pipeline_ok T" unfolding T by (rule pipeline_ok_reachable)
  have "in_flight T \<le> length (awaiting T)"
    unfolding in_flight_def by (rule length_filter_le)
  moreover have "length (awaiting T) \<le> 1"
    using ok by (simp add: pipeline_ok_def worker_ok_def)
  ultimately have 1: "in_flight T \<le> 1"
    by (rule order_trans)
  have 2: "isProcessing t \<longrightarrow> processQueue t now = t"
    by (simp add: processQueue_idle)
  have 3: "isProcessing (settle T out now) = (queue T \<noteq> []) \<and>
            queue (settle T out now) = tl (queue T) \<and>
            map a_item (awaiting (settle T out now)) =
              (if queue T \<noteq> [] \<and> job_encodable (hd (queue T)) then [hd (queue T)] else [])"
    if h: "awaiting T = a # rest" "await_result (provider T) a out = Some r" for a rest r
  proof -
    have rest: "rest = []" using ok h(1) by (simp add: pipeline_ok_def worker_ok_def)
    obtain t3 where t3: "settle T out now = processQueue t3 now" "\<not> isProcessing t3"
        "queue t3 = queue T" "awaiting t3 = []"
      using settle_eq[OF h, of now] rest by auto
    show ?thesis
    proof (cases "queue T")
      case Nil
      then show ?thesis using t3 by (simp add: processQueue_idle)
    next
      case (Cons j q)
      then show ?thesis using t3 by (simp add: processQueue_start[of t3 j q])
    qed
  qed
  from 1 2 3 show ?thesis by blast
qed

theorem single_transcription_in_flight_witness:
  "in_flight (two_segments ''local-whisper'' []) \<le> 1 \<and>
   isProcessing (two_segments ''local-whisper'' []) \<and>
   processQueue (two_segments ''local-whisper'' []) 300 = two_segments ''local-whisper'' [] \<and>
   awaiting (two_segments ''local-whisper'' []) = [tone_pending 3 200] \<and>
   await_result (provider (two_segments ''local-whisper'' [])) (tone_pending 3 200) WhisperError
     = Some (Inl TranscriptionError) \<and>
   isProcessing (settle (two_segments ''local-whisper'' []) WhisperError 300) \<and>
   queue (settle (two_segments ''local-whisper'' []) WhisperError 300) = [] \<and>
   map a_item (awaiting (settle (two_segments ''local-whisper'' []) WhisperError 300)) = [tone_job 4]"
proof -
  have ar: "await_result ''local-whisper'' (tone_pending 3 200) WhisperError
              = Some (Inl TranscriptionError)"
    by (simp add: await_result_def tone_pending_def)
  have je: "job_encodable (tone_job 4)"
    by (simp add: job_encodable_def tone_job_def tone_bytes_def encodable_def)
  show ?thesis
    using single_transcription_in_flight[where T = "two_segments ''local-whisper'' []"
        and t = "two_segments ''local-whisper'' []" and now = 300 and out = WhisperError,
        OF two_segments_def]
      two_segments_local ar je
    by simp
qed

text \<open>
  C2. The queue of every reachable state holds at most 3 jobs, and still does after a
  further flush. A flush of a voiced segment into a reachable state whose queue holds 3
  jobs leaves the queue as its former tail, in order, followed by the new job.
\<close>

theorem queue_bounded_drop_oldest:
  assumes T: "T = run (new_Transcriber cfg key) evs"
  shows "length (queue T) \<le> 3 \<and>
         length (queue (snd (queueTranscription T socketId pd now))) \<le> 3 \<and>
         (length (queue T) = 3 \<and> p_buffer pd \<noteq> [] \<and> hasVoiceActivity (concat (p_buffer pd)) \<longrightarrow>
            queue (snd (queueTranscription T socketId pd now))
              = tl (queue T) @ [flushed_job socketId pd])"
proof -
  have ok: "pipeline_ok T" unfolding T by (rule pipeline_ok_reachable)
  have 1: "length (queue T) \<le> 3" using ok by (simp add: pipeline_ok_def worker_ok_def)
  have "pipeline_ok (snd (queueTranscription T socketId pd now))"
    using ok by (rule pipeline_ok_queueTranscription)
  then have 2: "length (queue (snd (queueTranscription T socketId pd now))) \<le> 3"
    by (simp add: pipeline_ok_def worker_ok_def)
  have 3: "queue (snd (queueTranscription T socketId pd now)) = tl (queue T) @ [flushed_job socketId pd]"
    if h: "length (queue T) = 3" "p_buffer pd \<noteq> []" "hasVoiceActivity (concat (p_buffer pd))"
  proof -
    have "queue T \<noteq> []" using h(1) by auto
    then have "isProcessing T" using ok by (auto simp add: pipeline_ok_def)
    then show ?thesis
      using h by (simp add: queueTranscription_def Let_def processQueue_idle flushed_job_def)
  qed
  from 1 2 3 show ?thesis by blast
qed

theorem queue_bounded_drop_oldest_witness:
  "queue (four_segments ''local-whisper'' []) = [tone_job 4, tone_job 5, tone_job 6] \<and>
   p_buffer (tone_peer [tone_bytes 7]) \<noteq> [] \<and>
   hasVoiceActivity (concat (p_buffer (tone_peer [tone_bytes 7]))) \<and>
   queue (snd (queueTranscription (four_segments ''local-whisper'' []) ''s1''
                 (tone_peer [tone_bytes 7]) 204))
     = [tone_job 5, tone_job 6, tone_job 7]"
proof -
  have fj: "flushed_job ''s1'' (tone_peer [tone_bytes 7]) = tone_job 7"
    by (simp add: flushed_job_def tone_peer_def tone_job_def)
  show ?thesis
    using queue_bounded_drop_oldest[where T = "four_segments ''local-whisper'' []"
        and socketId = "''s1''" and pd = "tone_peer [tone_bytes 7]"
        and now = 204, OF four_segments_def]
      four_segments_local tone_voiced fj
    by (simp add: tone_peer_def tone_bytes_def)
qed




text \<open>
  C4 at the input where the code departs from it. The local whisper process exits with
  code 0 and leaves the line \<^verbatim>\<open>Thank you.\<close>: the worker broadcasts the phrase to the room
  and appends it to the session. The same text returned by the Groq API is filtered, and
  nothing is broadcast or appended.
\<close>

theorem local_whisper_filler_not_filtered:
  "emitted (settle (one_segment ''local-whisper'' []) (WhisperClose 0 (Some thank_you_line)) 300)
     = [(''standup'', \<lparr> m_userId = ''A'', m_text = ''Thank you.'', m_timestamp = 300 \<rparr>)] \<and>
   map_option s_transcriptions
     (sessions (settle (one_segment ''local-whisper'' []) (WhisperClose 0 (Some thank_you_line)) 300)
        ''standup'')
     = Some [\<lparr> e_timestamp = 300, e_userId = ''A'', e_text = ''Thank you.'' \<rparr>] \<and>
   emitted (settle (one_segment ''groq'' ''key'') (GroqText thank_you_line) 300) = [] \<and>
   map_option s_transcriptions
     (sessions (settle (one_segment ''groq'' ''key'') (GroqText thank_you_line) 300) ''standup'')
     = Some []"
  by (simp add: one_segment_def eval_defs filler_texts thank_you_line_nonempty)

text \<open>
  C5. In a reachable state whose worker awaits a call, let the call fail: the Groq request
  fails, or the whisper process cannot be spawned or exits with a non-zero code. The
  \<^verbatim>\<open>await\<close> throws, and the step still returns a state (nothing leaves the worker);
  sessions, session files and broadcasts are as before; the failed job is gone, and the
  next queued job, if any, has been taken from the queue and started.
\<close>

theorem provider_failure_contained:
  assumes T: "T = run (new_Transcriber cfg key) evs"
    and a: "awaiting T = a # rest"
    and fail: "(provider T = ''groq'' \<and> out = GroqFailure) \<or>
               (provider T \<noteq> ''groq'' \<and>
                  (out = WhisperError \<or> (\<exists>code txt. out = WhisperClose code txt \<and> code \<noteq> 0)))"
  shows "await_result (provider T) a out = Some (Inl TranscriptionError) \<and>
         sessions (settle T out now) = sessions T \<and>
         emitted (settle T out now) = emitted T \<and>
         (\<forall>room time. files (settle T out now) (SessionFile room time)
                         = files T (SessionFile room time)) \<and>
         isProcessing (settle T out now) = (queue T \<noteq> []) \<and>
         queue (settle T out now) = tl (queue T) \<and>
         map a_item (awaiting (settle T out now)) =
           (if queue T \<noteq> [] \<and> job_encodable (hd (queue T)) then [hd (queue T)] else [])"
proof -
  have ok: "pipeline_ok T" unfolding T by (rule pipeline_ok_reachable)
  have h: "rest = []" "a_early a = None" "is_wav_path (a_wavPath a)"
    using awaiting_head[OF ok a] by simp_all
  have r: "await_result (provider T) a out = Some (Inl TranscriptionError)"
    using fail h(2) by (auto simp add: await_result_def transcribeWithLocalWhisper_close_def)
  let ?t3 = "T\<lparr> awaiting := rest, files := (files T)(a_wavPath a := None), isProcessing := False \<rparr>"
  have s: "settle T out now = processQueue ?t3 now"
    by (rule settle_failed[OF a r])
  have d: "isProcessing (processQueue ?t3 now) = (queue ?t3 \<noteq> []) \<and>
         queue (processQueue ?t3 now) = tl (queue ?t3) \<and>
         map a_item (awaiting (processQueue ?t3 now)) =
           (if queue ?t3 \<noteq> [] \<and> job_encodable (hd (queue ?t3)) then [hd (queue ?t3)] else [])"
    by (rule processQueue_drain) (simp_all add: h)
  have f: "files (settle T out now) (SessionFile room time) = files T (SessionFile room time)"
    for room time
    using wav_path_not_session[OF h(3), of room time] processQueue_other[of ?t3 now room time]
    by (simp add: s)
  show ?thesis
    using r d f processQueue_other[of ?t3 now] by (simp add: s)
qed

theorem provider_failure_contained_witness:
  "awaiting (two_segments ''local-whisper'' []) = tone_pending 3 200 # [] \<and>
   provider (two_segments ''local-whisper'' []) \<noteq> ''groq'' \<and>
   await_result (provider (two_segments ''local-whisper'' [])) (tone_pending 3 200)
     (WhisperClose 1 None) = Some (Inl TranscriptionError) \<and>
   sessions (settle (two_segments ''local-whisper'' []) (WhisperClose 1 None) 300)
     = sessions (two_segments ''local-whisper'' []) \<and>
   emitted (settle (two_segments ''local-whisper'' []) (WhisperClose 1 None) 300)
     = emitted (two_segments ''local-whisper'' []) \<and>
   isProcessing (settle (two_segments ''local-whisper'' []) (WhisperClose 1 None) 300) \<and>
   queue (settle (two_segments ''local-whisper'' []) (WhisperClose 1 None) 300) = [] \<and>
   map a_item (awaiting (settle (two_segments ''local-whisper'' []) (WhisperClose 1 None) 300))
     = [tone_job 4]"
proof -
  have je: "job_encodable (tone_job 4)"
    by (simp add: job_encodable_def tone_job_def tone_bytes_def encodable_def)
  show ?thesis
    using provider_failure_contained[where T = "two_segments ''local-whisper'' []"
        and a = "tone_pending 3 200" and rest = "[]" and out = "WhisperClose 1 None" and now = 300,
        OF two_segments_def]
      two_segments_local je
    by simp
qed

text \<open>
  C6. Whenever \<^verbatim>\<open>writeWav\<close> returns (no field is out of range, so no write throws), the
  file it wrote is a 44-byte header followed by exactly the payload \<open>P\<close>: the data-chunk
  length field (offset 40) is \<open>length P\<close>, the byte rate field (offset 28) is \<open>R * C * 2\<close>,
  the block align field (offset 32) is \<open>C * 2\<close>, the file-size field (offset 4) is
  \<open>36 + length P\<close>, and decoding (the declared number of bytes after the header) gives
  back \<open>P\<close>.
\<close>

theorem writeWav_container:
  assumes "writeWav fs filePath P R C = Inr fs'"
  shows "\<exists>w. fs' filePath = Some (Bytes w) \<and> length w = 44 + length P \<and>
             readUInt32LE w 40 = length P \<and> readUInt32LE w 28 = R * C * 2 \<and>
             readUInt16LE w 32 = C * 2 \<and> readUInt32LE w 4 = 36 + length P \<and>
             drop 44 w = P \<and> wav_payload w = P"
proof -
  have enc: "encodable (length P) R C"
    using assms by (simp add: writeWav_eq split: if_splits)
  have fs': "fs' = fs(filePath \<mapsto> Bytes (wav_header (length P) R C @ P))"
    using assms enc by (simp add: writeWav_eq)
  show ?thesis
    using header_fields[OF enc, of P]
    by (simp add: fs' length_wav_header wav_payload_def)
qed

theorem writeWav_container_witness:
  "writeWav Map.empty (WavFile ''s1'' 7) [1, 0, 255, 127] 48000 1
     = Inr [WavFile ''s1'' 7 \<mapsto>
             Bytes (wav_header (length [1, 0, 255, 127 :: byte]) 48000 1 @ [1, 0, 255, 127])] \<and>
   (\<exists>w. [WavFile ''s1'' 7 \<mapsto>
             Bytes (wav_header (length [1, 0, 255, 127 :: byte]) 48000 1 @ [1, 0, 255, 127])]
            (WavFile ''s1'' 7) = Some (Bytes w) \<and>
        length w = 48 \<and> readUInt32LE w 40 = 4 \<and> readUInt32LE w 28 = 96000 \<and>
        readUInt16LE w 32 = 2 \<and> readUInt32LE w 4 = 40 \<and> wav_payload w = [1, 0, 255, 127])"
proof -
  have w: "writeWav Map.empty (WavFile ''s1'' 7) [1, 0, 255, 127] 48000 1
     = Inr [WavFile ''s1'' 7 \<mapsto>
             Bytes (wav_header (length [1, 0, 255, 127 :: byte]) 48000 1 @ [1, 0, 255, 127])]"
    by (simp add: writeWav_eq encodable_def)
  from writeWav_container[OF w] show ?thesis using w by simp
qed



text \<open>
  C8. \<^verbatim>\<open>startSession\<close> for a room that has an open session returns that session and the
  unchanged state: no file is written and nothing is mutated. Hence opening twice is the
  same as opening once, and the sessions of other rooms are never touched: the map holds
  at most one open session per room id.
\<close>

theorem startSession_idempotent:
  "(sessions t roomId = Some s \<longrightarrow> startSession t roomId now = (s, t)) \<and>
   startSession (snd (startSession t roomId now)) roomId now' = startSession t roomId now \<and>
   (\<forall>r. r \<noteq> roomId \<longrightarrow> sessions (snd (startSession t roomId now)) r = sessions t r)"
  by (auto simp add: startSession_def Let_def split: option.splits)

theorem startSession_idempotent_witness:
  "sessions (joined ''local-whisper'' []) ''standup''
     = Some \<lparr> s_filePath = SessionFile ''standup'' 100, s_startedAt = 100, s_transcriptions = [] \<rparr> \<and>
   startSession (joined ''local-whisper'' []) ''standup'' 500
     = (\<lparr> s_filePath = SessionFile ''standup'' 100, s_startedAt = 100, s_transcriptions = [] \<rparr>,
        joined ''local-whisper'' []) \<and>
   ''lobby'' \<noteq> ''standup'' \<and>
   sessions (snd (startSession (joined ''local-whisper'' []) ''standup'' 500)) ''lobby''
     = sessions (joined ''local-whisper'' []) ''lobby''"
proof -
  have s: "sessions (joined ''local-whisper'' []) ''standup''
     = Some \<lparr> s_filePath = SessionFile ''standup'' 100, s_startedAt = 100, s_transcriptions = [] \<rparr>"
    by (simp add: joined_def eval_defs)
  show ?thesis
    using startSession_idempotent[where t = "joined ''local-whisper'' []" and roomId = "''standup''"
        and now = 500 and s = "\<lparr> s_filePath = SessionFile ''standup'' 100, s_startedAt = 100,
                                s_transcriptions = [] \<rparr>"]
      s
    by simp
qed

text \<open>
  C9. In a reachable state whose worker awaits a call, let the call yield a transcript
  that is not blank, for a job whose room has no open session. The transcript is broadcast
  to the room, and nothing is persisted: \<^verbatim>\<open>saveTranscription\<close> leaves the state as it is,
  the sessions and the session files are unchanged.
\<close>

theorem transcript_without_session:
  assumes T: "T = run (new_Transcriber cfg key) evs"
    and a: "awaiting T = a # rest"
    and r: "await_result (provider T) a out = Some (Inr transcript)"
    and nonempty: "js_trim transcript \<noteq> []"
    and closed: "sessions T (j_roomId (a_item a)) = None"
  shows "emitted (settle T out now) =
           emitted T @ [(j_roomId (a_item a),
                         \<lparr> m_userId = j_userId (a_item a), m_text = js_trim transcript,
                           m_timestamp = now \<rparr>)] \<and>
         sessions (settle T out now) = sessions T \<and>
         (\<forall>room time. files (settle T out now) (SessionFile room time)
                         = files T (SessionFile room time)) \<and>
         saveTranscription T (j_roomId (a_item a)) (j_userId (a_item a)) (js_trim transcript) now = T"
proof -
  have ok: "pipeline_ok T" unfolding T by (rule pipeline_ok_reachable)
  have h: "is_wav_path (a_wavPath a)"
    using awaiting_head[OF ok a] by simp
  let ?t3 = "T\<lparr> awaiting := rest,
                  emitted := emitted T @
                    [(j_roomId (a_item a),
                      \<lparr> m_userId = j_userId (a_item a), m_text = js_trim transcript,
                        m_timestamp = now \<rparr>)],
                  files := (files T)(a_wavPath a := None),
                  isProcessing := False \<rparr>"
  have s: "settle T out now = processQueue ?t3 now"
    by (rule settle_text_no_session[OF a r nonempty closed])
  have f: "files (settle T out now) (SessionFile room time) = files T (SessionFile room time)"
    for room time
    using wav_path_not_session[OF h, of room time] processQueue_other[of ?t3 now room time]
    by (simp add: s)
  have sv: "saveTranscription T (j_roomId (a_item a)) (j_userId (a_item a)) (js_trim transcript) now = T"
    using closed by (simp add: saveTranscription_def)
  show ?thesis
    using f sv processQueue_other[of ?t3 now] by (simp add: s)
qed

theorem transcript_without_session_witness:
  "awaiting (left_early ''local-whisper'' []) = tone_pending 3 200 # [] \<and>
   await_result (provider (left_early ''local-whisper'' [])) (tone_pending 3 200)
       (WhisperClose 0 (Some ''hello'')) = Some (Inr ''hello'') \<and>
   js_trim ''hello'' \<noteq> [] \<and>
   sessions (left_early ''local-whisper'' []) (j_roomId (a_item (tone_pending 3 200))) = None \<and>
   emitted (settle (left_early ''local-whisper'' []) (WhisperClose 0 (Some ''hello'')) 300)
     = [(''standup'', \<lparr> m_userId = ''A'', m_text = ''hello'', m_timestamp = 300 \<rparr>)] \<and>
   sessions (settle (left_early ''local-whisper'' []) (WhisperClose 0 (Some ''hello'')) 300)
     = sessions (left_early ''local-whisper'' [])"
proof -
  have t: "js_trim ''hello'' = ''hello''" by code_simp
  have ar: "await_result ''local-whisper'' (tone_pending 3 200) (WhisperClose 0 (Some ''hello''))
              = Some (Inr ''hello'')"
    by (simp add: await_result_def tone_pending_def transcribeWithLocalWhisper_close_def)
  have c: "sessions (left_early ''local-whisper'' []) (j_roomId (a_item (tone_pending 3 200))) = None"
    by (simp add: left_early_state tone_pending_def tone_job_def)
  show ?thesis
    using transcript_without_session[where T = "left_early ''local-whisper'' []"
        and a = "tone_pending 3 200" and rest = "[]" and out = "WhisperClose 0 (Some ''hello'')"
        and transcript = "''hello''" and now = 300, OF left_early_def]
      left_early_state ar c
    by (simp add: t tone_pending_def tone_job_def)
qed

text \<open>
  C10. The gate is defined on every buffer: it accepts exactly the buffers that hold at
  least one sample and whose sum of absolute amplitudes exceeds 50 times the number of
  samples. On the empty buffer the mean is 0/0, that is \<^verbatim>\<open>NaN\<close>, and the comparison is
  false: a flush whose chunks are all empty queues nothing, and no job in the queue or at
  the worker of a reachable state has an empty payload.
\<close>

theorem empty_segment_rejected:
  assumes T: "T = run (new_Transcriber cfg key) evs"
  shows "avgEnergy [] = NaN \<and> \<not> hasVoiceActivity [] \<and>
         (hasVoiceActivity b \<longleftrightarrow>
            (Int16Array b \<noteq> [] \<and> 50 * length (Int16Array b) < sum_abs b)) \<and>
         (concat (p_buffer pd) = [] \<longrightarrow>
            queue (snd (queueTranscription t socketId pd now)) = queue t \<and>
            awaiting (snd (queueTranscription t socketId pd now)) = awaiting t \<and>
            isProcessing (snd (queueTranscription t socketId pd now)) = isProcessing t) \<and>
         (\<forall>j \<in> set (queue T) \<union> a_item ` set (awaiting T). j_audioBuffer j \<noteq> [])"
proof -
  have ok: "pipeline_ok T" unfolding T by (rule pipeline_ok_reachable)
  have e: "avgEnergy [] = NaN" "\<not> hasVoiceActivity []"
    by (simp_all add: hasVoiceActivity_def avgEnergy_def js_div_def)
  have 3: "queue (snd (queueTranscription t socketId pd now)) = queue t \<and>
            awaiting (snd (queueTranscription t socketId pd now)) = awaiting t \<and>
            isProcessing (snd (queueTranscription t socketId pd now)) = isProcessing t"
    if h: "concat (p_buffer pd) = []"
  proof -
    have "\<not> hasVoiceActivity (concat (p_buffer pd))"
      unfolding h by (rule e(2))
    then show ?thesis by (simp add: queueTranscription_def Let_def)
  qed
  have 4: "j_audioBuffer j \<noteq> []" if "j \<in> set (queue T) \<union> a_item ` set (awaiting T)" for j
    using queue_or_awaiting_passed[OF ok that] e(2) by (auto simp add: passed_gate_def)
  from e 3 4 hasVoiceActivity_iff[of b] show ?thesis by blast
qed

theorem empty_segment_rejected_witness:
  "concat (p_buffer (tone_peer [Nil, Nil])) = [] \<and>
   queue (snd (queueTranscription (joined ''groq'' ''key'') ''s1'' (tone_peer [Nil, Nil]) 200)) = [] \<and>
   awaiting (snd (queueTranscription (joined ''groq'' ''key'') ''s1'' (tone_peer [Nil, Nil]) 200)) = [] \<and>
   tone_job 4 \<in> set (queue (two_segments ''local-whisper'' [])) \<union>
                 a_item ` set (awaiting (two_segments ''local-whisper'' [])) \<and>
   j_audioBuffer (tone_job 4) \<noteq> []"
proof -
  have j: "queue (joined ''groq'' ''key'') = []" "awaiting (joined ''groq'' ''key'') = []"
    by (simp_all add: joined_def eval_defs)
  show ?thesis
    using empty_segment_rejected[where T = "two_segments ''local-whisper'' []"
        and t = "joined ''groq'' ''key''" and pd = "tone_peer [Nil, Nil]" and socketId = "''s1''"
        and now = 200, OF two_segments_def]
      j two_segments_local
    by (simp add: tone_peer_def)
qed


end
